theory Spec2Isabelle
  imports Main "HOL-Library.AList"
begin

section \<open>JavaScript values\<close>

text \<open>
  The values that cross a port are structured-clone data. The model covers \<open>undefined\<close>,
  \<open>null\<close>, booleans, the integers of magnitude up to \<open>2 ^ 53\<close> among the numbers
  (\<open>JNum n\<close> is the double \<open>n\<close>), \<open>NaN\<close>, strings and plain objects (an association
  list of own properties, first binding of a key wins). Arrays, other numbers and other
  kinds of object are not covered.
\<close>

datatype jsval =
    JUndefined
  | JNull
  | JBool bool
  | JNum int
  | JNaN
  | JStr string
  | JObj "(string \<times> jsval) list"

text \<open>
  \<open>ErrorCode\<close> and \<open>ApiError\<close> are declared outside these sources. An \<open>ApiError\<close> is kept
  as the two constructor arguments the code passes and the text of its \<open>stack\<close> property.
\<close>

datatype ErrorCode = EPERM | ENOENT | EIO | EBADF | EINVAL | EROFS

datatype js_error =
    TypeError
  | ApiError ErrorCode string string

fun typeof :: "jsval \<Rightarrow> string" where
  "typeof JUndefined = ''undefined''"
| "typeof JNull = ''object''"
| "typeof (JBool b) = ''boolean''"
| "typeof (JNum n) = ''number''"
| "typeof JNaN = ''number''"
| "typeof (JStr s) = ''string''"
| "typeof (JObj fs) = ''object''"

text \<open>\<open>!!v\<close>\<close>

fun truthy :: "jsval \<Rightarrow> bool" where
  "truthy JUndefined = False"
| "truthy JNull = False"
| "truthy (JBool b) = b"
| "truthy (JNum n) = (n \<noteq> 0)"
| "truthy JNaN = False"
| "truthy (JStr s) = (s \<noteq> [])"
| "truthy (JObj fs) = True"

text \<open>\<open>k in v\<close>: a \<open>TypeError\<close> unless the right operand is an object; \<open>null\<close> is not one.\<close>

fun js_in :: "string \<Rightarrow> jsval \<Rightarrow> js_error + bool" where
  "js_in k (JObj fs) = Inr (k \<in> set (map fst fs))"
| "js_in k v = Inl TypeError"

text \<open>
  \<open>v.k\<close> for the property names this code reads (none of them a member of a primitive's
  prototype): reading any property of \<open>undefined\<close> or \<open>null\<close> throws, a primitive has
  none of them, an object gives the property or \<open>undefined\<close>.
\<close>

fun field :: "jsval \<Rightarrow> string \<Rightarrow> jsval" where
  "field (JObj fs) k = (case map_of fs k of Some v \<Rightarrow> v | None \<Rightarrow> JUndefined)"
| "field v k = JUndefined"

definition js_get :: "jsval \<Rightarrow> string \<Rightarrow> js_error + jsval" where
  "js_get v k = (if v = JUndefined \<or> v = JNull then Inl TypeError else Inr (field v k))"

text \<open>\<open>a && b\<close> on conditions that may throw: \<open>b\<close> is not evaluated when \<open>a\<close> is false.\<close>

definition and_then :: "js_error + bool \<Rightarrow> js_error + bool \<Rightarrow> js_error + bool" where
  "and_then a b = (case a of Inl e \<Rightarrow> Inl e | Inr c \<Rightarrow> if c then b else Inr False)"

text \<open>
  Decimal digits of a natural number, and \<open>String(v)\<close>. An integer of magnitude up to
  \<open>2 ^ 53\<close> is printed in decimal digits.
\<close>

fun show_nat :: "nat \<Rightarrow> string" where
  "show_nat n =
     (if n < 10 then [''0123456789'' ! n]
      else show_nat (n div 10) @ [''0123456789'' ! (n mod 10)])"

declare show_nat.simps [simp del]

fun to_string :: "jsval \<Rightarrow> string" where
  "to_string JUndefined = ''undefined''"
| "to_string JNull = ''null''"
| "to_string (JBool b) = (if b then ''true'' else ''false'')"
| "to_string (JNum n) = (if n < 0 then ''-'' @ show_nat (nat (- n)) else show_nat (nat n))"
| "to_string JNaN = ''NaN''"
| "to_string (JStr s) = s"
| "to_string (JObj fs) = ''[object Object]''"

text \<open>
  The sum of two doubles that are integers of magnitude up to \<open>2 ^ 53\<close>: exact up to
  \<open>2 ^ 53\<close>; beyond, the doubles are the even integers, and an odd sum is rounded to the
  neighbour whose mantissa is even, the multiple of four.
\<close>

definition double_sum :: "int \<Rightarrow> int \<Rightarrow> int" where
  "double_sum x y =
     (let z = x + y
      in if \<bar>z\<bar> \<le> 2 ^ 53 \<or> even z then z
         else if z mod 4 = 1 then z - 1 else z + 1)"

text \<open>
  \<open>a + b\<close>: string concatenation as soon as one operand is a string or an object (a plain
  object's primitive is the string \<open>[object Object]\<close>), numeric addition otherwise.
\<close>

fun to_number :: "jsval \<Rightarrow> int option" where
  "to_number JNull = Some 0"
| "to_number (JBool b) = Some (if b then 1 else 0)"
| "to_number (JNum n) = Some n"
| "to_number v = None"

fun concatenates :: "jsval \<Rightarrow> bool" where
  "concatenates (JStr s) = True"
| "concatenates (JObj fs) = True"
| "concatenates v = False"

definition js_plus :: "jsval \<Rightarrow> jsval \<Rightarrow> jsval" where
  "js_plus a b =
     (if concatenates a \<or> concatenates b then JStr (to_string a @ to_string b)
      else case (to_number a, to_number b) of
             (Some x, Some y) \<Rightarrow> JNum (double_sum x y)
           | _ \<Rightarrow> JNaN)"

section \<open>Messages\<close>

text \<open>
  \<^verbatim>\<open>function isFileData(value: unknown): value is FileData {
    return typeof value == 'object' && 'fd' in value && 'path' in value && 'position' in value;
  }\<close>
\<close>

definition isFileData :: "jsval \<Rightarrow> js_error + bool" where
  "isFileData val =
     and_then (Inr (typeof val = ''object''))
       (and_then (js_in ''fd'' val)
          (and_then (js_in ''path'' val) (js_in ''position'' val)))"

text \<open>
  \<^verbatim>\<open>export function isMessage(arg: unknown): arg is Message<string, string> {
    return typeof arg == 'object' && '_zenfs' in arg && !!arg._zenfs;
  }\<close>
\<close>

definition isMessage :: "jsval \<Rightarrow> js_error + bool" where
  "isMessage arg =
     and_then (Inr (typeof arg = ''object''))
       (and_then (js_in ''_zenfs'' arg)
          (case js_get arg ''_zenfs'' of Inl e \<Rightarrow> Inl e | Inr v \<Rightarrow> Inr (truthy v)))"

section \<open>The engine: pending calls, promises, timers\<close>

text \<open>
  \<open>PortFS\<close> and \<open>PortFile\<close> are declared in \<open>fs.js\<close>, outside these sources. A stub is an
  object reference; a \<open>PortFile\<close> is kept as the arguments of
  \<open>new PortFile(fs, fd, path, position)\<close>.
\<close>

type_synonym PortFS = nat

datatype PortFile = PortFile "PortFS option" jsval jsval jsval

text \<open>
  What a promise is settled with, and the promise itself. A settled promise ignores
  every later call of its resolving functions.
\<close>

datatype settlement = Val jsval | File PortFile | Err js_error

datatype promise = Pending | Fulfilled settlement | Rejected settlement

definition settle :: "nat \<Rightarrow> promise \<Rightarrow> promise list \<Rightarrow> promise list" where
  "settle p outcome ps =
     (if p < length ps \<and> ps ! p = Pending then ps[p := outcome] else ps)"

text \<open>
  An \<open>Executor\<close> holds the two resolving functions of one promise and the stub; the model
  keeps the index of the promise in the heap of promises.
\<close>

record Executor =
  ex_promise :: nat
  ex_fs :: "PortFS option"

text \<open>
  A timer started by \<open>setTimeout\<close>: its delay and what its callback closes over
  (\<open>reject\<close>, \<open>id\<close>, \<open>stack\<close>).
\<close>

record timer =
  tm_delay :: int
  tm_promise :: nat
  tm_id :: string
  tm_stack :: string

text \<open>For \<open>request\<close> a port is the object it posts to, known by its reference.\<close>

type_synonym Port = nat

text \<open>
  The module-level table \<open>executors\<close>, the promises created so far, the timers by handle
  (\<open>None\<close> once fired) and the log of \<open>postMessage\<close> calls.
\<close>

record engine =
  executors :: "string \<rightharpoonup> Executor"
  promises :: "promise list"
  timers :: "timer option list"
  posted :: "(Port \<times> jsval) list"

definition init :: engine where
  "init = \<lparr>executors = Map.empty, promises = [], timers = [], posted = []\<rparr>"

text \<open>\<open>executors.get(id)\<close> and \<open>executors.delete(id)\<close>; every key of the table is a string.\<close>

fun executors_get :: "(string \<rightharpoonup> Executor) \<Rightarrow> jsval \<Rightarrow> Executor option" where
  "executors_get m (JStr k) = m k"
| "executors_get m v = None"

fun executors_delete :: "(string \<rightharpoonup> Executor) \<Rightarrow> jsval \<Rightarrow> (string \<rightharpoonup> Executor)" where
  "executors_delete m (JStr k) = m(k := None)"
| "executors_delete m v = m"

section \<open>request\<close>

text \<open>
  \<^verbatim>\<open>export function request(request, { port, timeout = 1000, fs } = {}): Promise<TValue> {
    const stack = new Error().stack.slice('Error:'.length);
    return new Promise<TValue>((resolve, reject) => {
      const id = Math.random().toString(16).slice(10);
      executors.set(id, { resolve, reject, fs });
      port.postMessage({ ...request, _zenfs: true, id, stack });
      setTimeout(() => {
        const error = new ApiError(ErrorCode.EIO, `RPC Failed (#${id})`);
        error.stack += stack;
        reject(error);
      }, timeout);
    });
  }\<close>
  Every member of the options is optional. The two things the code takes from its host are
  arguments of the model: \<open>random\<close> is the text \<open>Math.random().toString(16)\<close> gave and
  \<open>trace\<close> the text of \<open>new Error().stack\<close>. The function given to \<open>new Promise\<close> runs at
  once, and what it throws rejects the promise: without a port the call of \<open>postMessage\<close>
  is a \<open>TypeError\<close>, after the record was stored and before any timer is started.
  On a port, \<open>postMessage\<close> is taken to return normally; the call is logged.
\<close>

record Options =
  opt_port :: "Port option"
  opt_timeout :: "int option"
  opt_fs :: "PortFS option"

definition request :: "(string \<times> jsval) list \<Rightarrow> Options \<Rightarrow> string \<Rightarrow> string \<Rightarrow> engine \<Rightarrow> nat \<times> engine" where
  "request req opts random trace s =
     (let stack = drop (length ''Error:'') trace;
          p = length (promises s);
          ident = drop 10 random;
          s1 = s\<lparr>promises := promises s @ [Pending],
                 executors := (executors s)(ident \<mapsto> \<lparr>ex_promise = p, ex_fs = opt_fs opts\<rparr>)\<rparr>
      in case opt_port opts of
           None \<Rightarrow> (p, s1\<lparr>promises := settle p (Rejected (Err TypeError)) (promises s1)\<rparr>)
         | Some port \<Rightarrow>
             (p, s1\<lparr>posted := posted s1 @
                       [(port, JObj (AList.update ''stack'' (JStr stack)
                                      (AList.update ''id'' (JStr ident)
                                        (AList.update ''_zenfs'' (JBool True) req))))],
                    timers := timers s1 @
                       [Some \<lparr>tm_delay = (case opt_timeout opts of None \<Rightarrow> 1000 | Some t \<Rightarrow> t),
                              tm_promise = p, tm_id = ident, tm_stack = stack\<rparr>]\<rparr>))"

text \<open>
  The callback given to \<open>setTimeout\<close>. \<open>estack\<close> is the stack text the new \<open>ApiError\<close>
  captured when it was constructed.
\<close>

definition timeout_callback :: "string \<Rightarrow> timer \<Rightarrow> engine \<Rightarrow> engine" where
  "timeout_callback estack tm s =
     (let error = ApiError EIO (''RPC Failed (#'' @ tm_id tm @ '')'') (estack @ tm_stack tm)
      in s\<lparr>promises := settle (tm_promise tm) (Rejected (Err error)) (promises s)\<rparr>)"

text \<open>The host runs the callback of timer \<open>k\<close> once; nothing in the code clears a timer.\<close>

definition fire :: "nat \<Rightarrow> string \<Rightarrow> engine \<Rightarrow> engine" where
  "fire k estack s =
     (if k < length (timers s) then
        (case timers s ! k of
           None \<Rightarrow> s
         | Some tm \<Rightarrow> timeout_callback estack tm (s\<lparr>timers := (timers s)[k := None]\<rparr>))
      else s)"

section \<open>handleResponse\<close>

text \<open>
  \<open>e.stack += stack\<close> on the value of an error response. The module is an ES module, hence
  strict code: storing a property on a primitive throws, as reading one of \<open>undefined\<close> or
  \<open>null\<close> does.
\<close>

fun append_stack :: "jsval \<Rightarrow> jsval \<Rightarrow> js_error + jsval" where
  "append_stack (JObj fs) stack =
     Inr (JObj (AList.update ''stack'' (js_plus (field (JObj fs) ''stack'') stack) fs))"
| "append_stack v stack = Inl TypeError"

text \<open>
  \<^verbatim>\<open>export function handleResponse(response) {
    if (!isMessage(response)) { return; }
    const { id, value, error, stack } = response;
    if (!executors.has(id)) {
      const error = new ApiError(ErrorCode.EIO, 'Invalid RPC id:' + id);
      error.stack += stack;
      throw error;
    }
    const { resolve, reject, fs } = executors.get(id);
    if (error) {
      const e = value;
      e.stack += stack;
      reject(e);
      executors.delete(id);
      return response;
    }
    if (isFileData(value)) {
      const { fd, path, position } = value;
      const file = new PortFile(fs, fd, path, position);
      resolve(file);
      executors.delete(id);
      return response;
    }
    resolve(value);
    executors.delete(id);
    return response;
  }\<close>
  The result is what the call throws (\<open>Inl\<close>) or returns (\<open>Inr\<close>), with the engine after
  it. \<open>estack\<close> is the stack text a new \<open>ApiError\<close> captures. In the error branch
  the returned response holds the value whose \<open>stack\<close> was just extended.
\<close>

definition handleResponse :: "string \<Rightarrow> jsval \<Rightarrow> engine \<Rightarrow> (js_error + jsval) \<times> engine" where
  "handleResponse estack response s =
     (case isMessage response of
        Inl e \<Rightarrow> (Inl e, s)
      | Inr False \<Rightarrow> (Inr JUndefined, s)
      | Inr True \<Rightarrow>
          (let ident = field response ''id'';
               val = field response ''value'';
               error = field response ''error'';
               stack = field response ''stack''
           in case executors_get (executors s) ident of
                None \<Rightarrow>
                  (Inl (ApiError EIO (''Invalid RPC id:'' @ to_string ident)
                          (estack @ to_string stack)), s)
              | Some ex \<Rightarrow>
                  if truthy error then
                    (case append_stack val stack of
                       Inl e \<Rightarrow> (Inl e, s)
                     | Inr e \<Rightarrow>
                         (Inr (JObj (AList.update ''value'' e (case response of JObj fs \<Rightarrow> fs | _ \<Rightarrow> []))),
                          s\<lparr>promises := settle (ex_promise ex) (Rejected (Val e)) (promises s),
                            executors := executors_delete (executors s) ident\<rparr>))
                  else
                    (case isFileData val of
                       Inl e \<Rightarrow> (Inl e, s)
                     | Inr True \<Rightarrow>
                         (let file = PortFile (ex_fs ex) (field val ''fd'') (field val ''path'')
                                       (field val ''position'')
                          in (Inr response,
                              s\<lparr>promises := settle (ex_promise ex) (Fulfilled (File file)) (promises s),
                                executors := executors_delete (executors s) ident\<rparr>))
                     | Inr False \<Rightarrow>
                         (Inr response,
                          s\<lparr>promises := settle (ex_promise ex) (Fulfilled (Val val)) (promises s),
                            executors := executors_delete (executors s) ident\<rparr>))))"

section \<open>Runs of the engine\<close>

text \<open>
  What can happen to an engine: a call of \<open>request\<close>, a value handed to \<open>handleResponse\<close>,
  a timer firing. What \<open>handleResponse\<close> throws goes to its caller and the engine stays
  as the call left it.
\<close>

datatype event =
    Call "(string \<times> jsval) list" Options string string
  | Receive jsval string
  | Timeout nat string

fun step :: "event \<Rightarrow> engine \<Rightarrow> engine" where
  "step (Call req opts random trace) s = snd (request req opts random trace s)"
| "step (Receive response estack) s = snd (handleResponse estack response s)"
| "step (Timeout k estack) s = fire k estack s"

fun run :: "event list \<Rightarrow> engine \<Rightarrow> engine" where
  "run [] s = s"
| "run (e # es) s = run es (step e s)"

section \<open>Ports and their listeners\<close>

text \<open>
  A function object is known by its identity, and every evaluation of an arrow function
  makes a new one. A listener is the arrow function that \<open>attach\<close> and \<open>detach\<close> write,
  \<^verbatim>\<open>(message) => { handler('data' in message ? message.data : message); }\<close>
  with the handler it closes over.
\<close>

record listener =
  fn_id :: nat
  fn_handler :: nat

text \<open>
  What the host gives as a port (\<open>interface Port\<close> makes \<open>on\<close>, \<open>addEventListener\<close>
  and \<open>onmessage\<close> optional): the names of its members, the listeners added with \<open>on\<close>,
  those added with \<open>addEventListener\<close>, and the \<open>onmessage\<close> slot.
\<close>

record port =
  members :: "string list"
  emitter :: "listener list"
  target :: "listener list"
  onmessage :: "listener option"

fun remove_first :: "nat \<Rightarrow> listener list \<Rightarrow> listener list" where
  "remove_first i [] = []"
| "remove_first i (l # ls) = (if fn_id l = i then ls else l # remove_first i ls)"

text \<open>
  \<open>port[name]('message', f)\<close>. A member the port does not have is \<open>undefined\<close>, and
  calling it is a \<open>TypeError\<close>. The methods are the hosts': \<open>on\<close> appends the listener,
  \<open>off\<close> removes the most recently added listener that is the same function,
  \<open>addEventListener\<close> appends it unless the same function is there already,
  \<open>removeEventListener\<close> removes that function.
\<close>

definition call_method :: "string \<Rightarrow> listener \<Rightarrow> port \<Rightarrow> js_error + port" where
  "call_method name f port =
     (if name \<notin> set (members port) then Inl TypeError
      else if name = ''on'' then Inr (port\<lparr>emitter := emitter port @ [f]\<rparr>)
      else if name = ''off'' then
        Inr (port\<lparr>emitter := rev (remove_first (fn_id f) (rev (emitter port)))\<rparr>)
      else if name = ''addEventListener'' then
        Inr (if fn_id f \<in> set (map fn_id (target port)) then port
             else port\<lparr>target := target port @ [f]\<rparr>)
      else if name = ''removeEventListener'' then
        Inr (port\<lparr>target := filter (\<lambda>l. fn_id l \<noteq> fn_id f) (target port)\<rparr>)
      else Inr port)"

text \<open>
  \<^verbatim>\<open>export function attach(port, handler) {
    port['on' in port ? 'on' : 'addEventListener']('message', (message) => {
      handler('data' in message ? message.data : message);
    });
  }
  export function detach(port, handler) {
    port['off' in port ? 'off' : 'removeEventListener']('message', (message) => {
      handler('data' in message ? message.data : message);
    });
  }\<close>
  \<open>created\<close> counts the function objects made so far: the arrow function of this call is
  number \<open>created\<close>, and it is made before the call of the method can throw.
\<close>

definition attach :: "port \<Rightarrow> nat \<Rightarrow> nat \<Rightarrow> (js_error + port) \<times> nat" where
  "attach port handler created =
     (call_method (if ''on'' \<in> set (members port) then ''on'' else ''addEventListener'')
        \<lparr>fn_id = created, fn_handler = handler\<rparr> port,
      Suc created)"

definition detach :: "port \<Rightarrow> nat \<Rightarrow> nat \<Rightarrow> (js_error + port) \<times> nat" where
  "detach port handler created =
     (call_method (if ''off'' \<in> set (members port) then ''off'' else ''removeEventListener'')
        \<lparr>fn_id = created, fn_handler = handler\<rparr> port,
      Suc created)"

text \<open>
  What a listener does with the message it is called with: it throws, or it calls its
  handler with one argument.
\<close>

datatype invocation = Invoked nat jsval | Threw js_error

definition listener_body :: "nat \<Rightarrow> jsval \<Rightarrow> invocation" where
  "listener_body handler message =
     (case js_in ''data'' message of
        Inl e \<Rightarrow> Threw e
      | Inr c \<Rightarrow> Invoked handler (if c then field message ''data'' else message))"

text \<open>
  A value arriving on the port: what each subscribed listener does, those added with \<open>on\<close>
  called with the value itself, those added with \<open>addEventListener\<close> and the one in the
  \<open>onmessage\<close> slot with an event that carries the value as \<open>data\<close>.
\<close>

definition deliver :: "port \<Rightarrow> jsval \<Rightarrow> invocation list" where
  "deliver port v =
     map (\<lambda>l. listener_body (fn_handler l) v) (emitter port)
     @ map (\<lambda>l. listener_body (fn_handler l) (JObj [(''data'', v)])) (target port)
     @ (case onmessage port of
          None \<Rightarrow> []
        | Some l \<Rightarrow> [listener_body (fn_handler l) (JObj [(''data'', v)])])"

text \<open>
  The listener that \<open>attach\<close> installs when the handler is \<open>handleResponse\<close>, called with
  a message: the arrow function has no \<open>try\<close>, so what the test of \<open>data\<close> or the handler
  throws leaves the listener; otherwise it returns \<open>undefined\<close>.
\<close>

definition listener_handleResponse ::
    "string \<Rightarrow> jsval \<Rightarrow> engine \<Rightarrow> (js_error + jsval) \<times> engine" where
  "listener_handleResponse estack message s =
     (case js_in ''data'' message of
        Inl e \<Rightarrow> (Inl e, s)
      | Inr c \<Rightarrow>
          (case handleResponse estack (if c then field message ''data'' else message) s of
             (Inl e, s') \<Rightarrow> (Inl e, s')
           | (Inr r, s') \<Rightarrow> (Inr JUndefined, s')))"

section \<open>Invariants and scenarios\<close>

text \<open>
  In an engine reached from \<open>init\<close>, every record and every timer refers to a promise
  that exists.
\<close>

definition wf_engine :: "engine \<Rightarrow> bool" where
  "wf_engine s \<longleftrightarrow>
     (\<forall>i ex. executors s i = Some ex \<longrightarrow> ex_promise ex < length (promises s))
     \<and> (\<forall>k tm. k < length (timers s) \<longrightarrow> timers s ! k = Some tm \<longrightarrow>
           tm_promise tm < length (promises s))"

text \<open>
  Promise \<open>p\<close> is pending, timer \<open>k\<close> is its timer and has not fired, no other timer
  rejects it, and no record but the one under id \<open>i\<close> settles it.
\<close>

definition tracks :: "nat \<Rightarrow> string \<Rightarrow> nat \<Rightarrow> timer \<Rightarrow> engine \<Rightarrow> bool" where
  "tracks p i k tm s \<longleftrightarrow>
     p < length (promises s) \<and> promises s ! p = Pending
     \<and> k < length (timers s) \<and> timers s ! k = Some tm \<and> tm_promise tm = p
     \<and> (\<forall>j ex. executors s j = Some ex \<longrightarrow> ex_promise ex = p \<longrightarrow> j = i)
     \<and> (\<forall>j tm'. j < length (timers s) \<longrightarrow> timers s ! j = Some tm' \<longrightarrow>
           tm_promise tm' = p \<longrightarrow> j = k)"


text \<open>The event hands \<open>handleResponse\<close> a tagged message with id \<open>i\<close>; the event fires timer \<open>k\<close>.\<close>

fun answers :: "string \<Rightarrow> event \<Rightarrow> bool" where
  "answers i (Receive response estack) =
     (isMessage response = Inr True \<and> field response ''id'' = JStr i)"
| "answers i e = False"

fun fires :: "nat \<Rightarrow> event \<Rightarrow> bool" where
  "fires k (Timeout j estack) = (j = k)"
| "fires k e = False"

text \<open>
  A call together with the response the other side sends for it: the arguments of
  \<open>request\<close> and the value later handed to \<open>handleResponse\<close>.
\<close>

record exchange =
  x_request :: "(string \<times> jsval) list"
  x_options :: Options
  x_random :: string
  x_trace :: string
  x_response :: jsval

definition call_of :: "exchange \<Rightarrow> event" where
  "call_of x = Call (x_request x) (x_options x) (x_random x) (x_trace x)"

definition reply_of :: "string \<Rightarrow> exchange \<Rightarrow> event" where
  "reply_of estack x = Receive (x_response x) estack"

text \<open>
  The call goes out on a port, and its response is a tagged success response that bears
  the id of the call and a value other than \<open>null\<close>.
\<close>

definition answered :: "exchange \<Rightarrow> bool" where
  "answered x \<longleftrightarrow>
     opt_port (x_options x) \<noteq> None
     \<and> isMessage (x_response x) = Inr True
     \<and> field (x_response x) ''id'' = JStr (drop 10 (x_random x))
     \<and> \<not> truthy (field (x_response x) ''error'')
     \<and> field (x_response x) ''value'' \<noteq> JNull"

text \<open>
  What a success response carrying \<open>val\<close> resolves the call of stub \<open>fs\<close> with: the value,
  or the \<open>PortFile\<close> made from it when it has \<open>fd\<close>, \<open>path\<close> and \<open>position\<close>.
\<close>

definition resolution :: "PortFS option \<Rightarrow> jsval \<Rightarrow> settlement" where
  "resolution fs val =
     (if isFileData val = Inr True
      then File (PortFile fs (field val ''fd'') (field val ''path'') (field val ''position''))
      else Val val)"

section \<open>Recognising a message\<close>

lemma isMessage_null: "isMessage JNull = Inl TypeError"
  by (simp add: isMessage_def and_then_def)

lemma isFileData_null: "isFileData JNull = Inl TypeError"
  by (simp add: isFileData_def and_then_def)

lemma isMessage_not_null:
  "v \<noteq> JNull \<Longrightarrow> isMessage v = Inr (truthy (field v ''_zenfs''))"
  by (cases v)
     (auto simp: isMessage_def and_then_def js_get_def
           split: option.splits dest: map_of_SomeD intro: rev_image_eqI)

lemma isMessage_object: "isMessage v = Inr True \<Longrightarrow> \<exists>fs. v = JObj fs"
  by (cases v) (auto simp: isMessage_def and_then_def js_get_def)

text \<open>
  Every value but \<open>null\<close> that carries no truthy \<open>_zenfs\<close> is passed over: nothing is
  settled, nothing removed, nothing thrown.
\<close>

lemma handleResponse_untagged:
  "v \<noteq> JNull \<Longrightarrow> \<not> truthy (field v ''_zenfs'') \<Longrightarrow>
     handleResponse estack v s = (Inr JUndefined, s)"
  by (simp add: handleResponse_def isMessage_not_null)

text \<open>
  C7 (a value without the \<open>_zenfs\<close> marker, \<open>null\<close> included, is ignored without throwing):
  the code does not do that for \<open>null\<close>. \<open>typeof null\<close> is \<open>'object'\<close>, so \<open>isMessage\<close> goes on
  to \<open>'_zenfs' in null\<close>, which throws a \<open>TypeError\<close> out of \<open>handleResponse\<close>.
\<close>

theorem handleResponse_null_throws:
  "handleResponse estack JNull s = (Inl TypeError, s)"
  by (simp add: handleResponse_def isMessage_null)

section \<open>A response for a pending call\<close>

lemma handleResponse_error:
  assumes "isMessage response = Inr True"
    and "executors_get (executors s) (field response ''id'') = Some ex"
    and "truthy (field response ''error'')"
    and "append_stack (field response ''value'') (field response ''stack'') = Inr e"
  shows "snd (handleResponse estack response s) =
           s\<lparr>promises := settle (ex_promise ex) (Rejected (Val e)) (promises s),
             executors := executors_delete (executors s) (field response ''id'')\<rparr>"
  using assms by (simp add: handleResponse_def)

lemma handleResponse_file:
  assumes "isMessage response = Inr True"
    and "executors_get (executors s) (field response ''id'') = Some ex"
    and "\<not> truthy (field response ''error'')"
    and "isFileData (field response ''value'') = Inr True"
  shows "handleResponse estack response s =
           (Inr response,
            s\<lparr>promises := settle (ex_promise ex)
                 (Fulfilled (File (PortFile (ex_fs ex)
                    (field (field response ''value'') ''fd'')
                    (field (field response ''value'') ''path'')
                    (field (field response ''value'') ''position'')))) (promises s),
              executors := executors_delete (executors s) (field response ''id'')\<rparr>)"
  using assms by (simp add: handleResponse_def Let_def)

lemma handleResponse_value:
  assumes "isMessage response = Inr True"
    and "executors_get (executors s) (field response ''id'') = Some ex"
    and "\<not> truthy (field response ''error'')"
    and "isFileData (field response ''value'') = Inr False"
  shows "handleResponse estack response s =
           (Inr response,
            s\<lparr>promises := settle (ex_promise ex) (Fulfilled (Val (field response ''value'')))
                 (promises s),
              executors := executors_delete (executors s) (field response ''id'')\<rparr>)"
  using assms by (simp add: handleResponse_def)

lemma handleResponse_null_value:
  assumes "isMessage response = Inr True"
    and "executors_get (executors s) (field response ''id'') = Some ex"
    and "\<not> truthy (field response ''error'')"
    and "field response ''value'' = JNull"
  shows "handleResponse estack response s = (Inl TypeError, s)"
  using assms by (simp add: handleResponse_def isFileData_null)

text \<open>
  C4 (a tagged response for a pending id removes the record and rejects with the error,
  resolves with a \<open>PortFile\<close>, or resolves with the value unchanged): the code does not do
  that for a success response whose value is \<open>null\<close>. With the call below pending under the
  id \<open>5d7e9\<close>, \<open>isFileData(null)\<close> evaluates \<open>'fd' in null\<close> and throws a \<open>TypeError\<close>: the
  promise stays pending and the record stays in the table.
\<close>

theorem handleResponse_null_value_throws:
  "(let s = snd (request [(''scope'', JStr ''fs''), (''method'', JStr ''readlink''),
                          (''args'', JObj [(''0'', JStr ''/a'')])]
                   \<lparr>opt_port = Some 0, opt_timeout = None, opt_fs = Some 7\<rparr>
                   ''0.8a3f2b1c5d7e9'' ''Error: at readlink'' init);
        response = JObj [(''_zenfs'', JBool True), (''scope'', JStr ''fs''),
                     (''id'', JStr ''5d7e9''), (''method'', JStr ''readlink''),
                     (''stack'', JStr []), (''error'', JBool False), (''value'', JNull)]
    in handleResponse estack response s = (Inl TypeError, s)
       \<and> promises s ! 0 = Pending
       \<and> executors s ''5d7e9'' = Some \<lparr>ex_promise = 0, ex_fs = Some 7\<rparr>)"
  by (simp add: Let_def request_def init_def handleResponse_def isMessage_def isFileData_def
        and_then_def js_get_def)

section \<open>A response for an unknown id\<close>

lemma listener_event:
  "listener_handleResponse estack (JObj [(''data'', response)]) s =
     (case handleResponse estack response s of
        (Inl e, s') \<Rightarrow> (Inl e, s') | (Inr r, s') \<Rightarrow> (Inr JUndefined, s'))"
  by (simp add: listener_handleResponse_def)

lemma listener_raw:
  "js_in ''data'' message = Inr False \<Longrightarrow>
   listener_handleResponse estack message s =
     (case handleResponse estack message s of
        (Inl e, s') \<Rightarrow> (Inl e, s') | (Inr r, s') \<Rightarrow> (Inr JUndefined, s'))"
  by (simp add: listener_handleResponse_def)

text \<open>
  C6, as the code has it. A tagged response whose id, a string, has no record in
  \<open>executors\<close> is not dropped: \<open>handleResponse\<close> throws an \<open>ApiError\<close> of code \<open>EIO\<close> whose
  message names the id and whose stack ends with the stack of the envelope, and nothing
  of the engine changes. Nothing catches the error: it leaves the listener that \<open>attach\<close>
  installs, whether the response arrives as the \<open>data\<close> of an event or as the message
  itself.
\<close>

theorem unknown_id_is_thrown:
  assumes "isMessage response = Inr True"
    and "field response ''id'' = JStr i"
    and "executors s i = None"
    and "field response ''stack'' = JStr st"
  shows "handleResponse estack response s =
           (Inl (ApiError EIO (''Invalid RPC id:'' @ i) (estack @ st)), s)
         \<and> listener_handleResponse estack (JObj [(''data'', response)]) s =
           (Inl (ApiError EIO (''Invalid RPC id:'' @ i) (estack @ st)), s)
         \<and> (js_in ''data'' response = Inr False \<longrightarrow>
              listener_handleResponse estack response s =
                (Inl (ApiError EIO (''Invalid RPC id:'' @ i) (estack @ st)), s))"
proof -
  have "handleResponse estack response s =
           (Inl (ApiError EIO (''Invalid RPC id:'' @ i) (estack @ st)), s)"
    using assms by (simp add: handleResponse_def)
  then show ?thesis by (simp add: listener_event listener_raw)
qed

theorem unknown_id_is_thrown_witness:
  "handleResponse ''EIO: Invalid RPC id:beef''
     (JObj [(''_zenfs'', JBool True), (''scope'', JStr ''fs''), (''id'', JStr ''beef''),
            (''method'', JStr ''stat''), (''stack'', JStr '' at stat''),
            (''error'', JBool False), (''value'', JNum 1)]) init =
     (Inl (ApiError EIO ''Invalid RPC id:beef'' ''EIO: Invalid RPC id:beef at stat''), init)
   \<and> listener_handleResponse ''EIO: Invalid RPC id:beef''
       (JObj [(''data'', JObj [(''_zenfs'', JBool True), (''scope'', JStr ''fs''), (''id'', JStr ''beef''),
            (''method'', JStr ''stat''), (''stack'', JStr '' at stat''),
            (''error'', JBool False), (''value'', JNum 1)])]) init =
     (Inl (ApiError EIO ''Invalid RPC id:beef'' ''EIO: Invalid RPC id:beef at stat''), init)
   \<and> listener_handleResponse ''EIO: Invalid RPC id:beef''
       (JObj [(''_zenfs'', JBool True), (''scope'', JStr ''fs''), (''id'', JStr ''beef''),
            (''method'', JStr ''stat''), (''stack'', JStr '' at stat''),
            (''error'', JBool False), (''value'', JNum 1)]) init =
     (Inl (ApiError EIO ''Invalid RPC id:beef'' ''EIO: Invalid RPC id:beef at stat''), init)"
  using unknown_id_is_thrown
    [of "JObj [(''_zenfs'', JBool True), (''scope'', JStr ''fs''), (''id'', JStr ''beef''),
            (''method'', JStr ''stat''), (''stack'', JStr '' at stat''),
            (''error'', JBool False), (''value'', JNum 1)]" "''beef''" init "'' at stat''" "''EIO: Invalid RPC id:beef''"]
  by (simp add: isMessage_def and_then_def js_get_def init_def)

text \<open>
  C6 as the claim states it fails: the listener is not spared. Called with an event whose
  \<open>data\<close> is a tagged response for the unknown id \<open>beef\<close>, the call of the listener ends
  with the \<open>ApiError\<close> thrown to the host that called it; no code catches it.
\<close>

theorem listener_throws_unknown_id:
  "listener_handleResponse ''EIO: Invalid RPC id:beef''
     (JObj [(''data'', JObj [(''_zenfs'', JBool True), (''scope'', JStr ''fs''), (''id'', JStr ''beef''),
            (''method'', JStr ''stat''), (''stack'', JStr '' at stat''),
            (''error'', JBool False), (''value'', JNum 1)])]) init =
     (Inl (ApiError EIO ''Invalid RPC id:beef'' ''EIO: Invalid RPC id:beef at stat''), init)"
  by (simp add: listener_handleResponse_def handleResponse_def isMessage_def and_then_def
        js_get_def init_def)

section \<open>A promise settles once\<close>

lemma length_settle [simp]: "length (settle p outcome ps) = length ps"
  by (simp add: settle_def)

lemma settle_other: "q \<noteq> p \<Longrightarrow> settle p outcome ps ! q = ps ! q"
  by (simp add: settle_def)

lemma settle_settled: "ps ! q \<noteq> Pending \<Longrightarrow> settle p outcome ps ! q = ps ! q"
  by (cases "q = p") (simp_all add: settle_def)

lemma settle_pending:
  "p < length ps \<Longrightarrow> ps ! p = Pending \<Longrightarrow> settle p outcome ps ! p = outcome"
  by (simp add: settle_def)

text \<open>What one call of handleResponse can do to the engine.\<close>

lemma handleResponse_effect:
  "snd (handleResponse estack response s) = s
   \<or> (\<exists>ex outcome. isMessage response = Inr True
         \<and> executors_get (executors s) (field response ''id'') = Some ex
         \<and> snd (handleResponse estack response s) =
             s\<lparr>promises := settle (ex_promise ex) outcome (promises s),
               executors := executors_delete (executors s) (field response ''id'')\<rparr>)"
  by (auto simp: handleResponse_def Let_def split: sum.splits bool.splits option.splits)

lemma handleResponse_timers [simp]: "timers (snd (handleResponse estack response s)) = timers s"
  using handleResponse_effect [of estack response s] by auto


lemma fire_executors [simp]: "executors (fire k estack s) = executors s"
  by (simp add: fire_def timeout_callback_def split: option.splits)

lemma fire_effect:
  "fire k estack s = s
   \<or> (\<exists>tm. k < length (timers s) \<and> timers s ! k = Some tm
         \<and> fire k estack s =
             s\<lparr>timers := (timers s)[k := None],
               promises := settle (tm_promise tm)
                  (Rejected (Err (ApiError EIO (''RPC Failed (#'' @ tm_id tm @ '')'') (estack @ tm_stack tm))))
                  (promises s)\<rparr>)"
  by (auto simp: fire_def timeout_callback_def split: option.splits)

lemma request_promises:
  "promises (snd (request req opts random trace s)) =
     promises s @ [case opt_port opts of None \<Rightarrow> Rejected (Err TypeError) | Some port \<Rightarrow> Pending]"
  by (simp add: request_def Let_def settle_def split: option.splits)

lemma request_timers:
  "timers (snd (request req opts random trace s)) =
     timers s @ (case opt_port opts of None \<Rightarrow> []
        | Some port \<Rightarrow> [Some \<lparr>tm_delay = (case opt_timeout opts of None \<Rightarrow> 1000 | Some t \<Rightarrow> t),
              tm_promise = length (promises s), tm_id = drop 10 random,
              tm_stack = drop (length ''Error:'') trace\<rparr>])"
  by (simp add: request_def Let_def split: option.splits)

lemma request_executors:
  "executors (snd (request req opts random trace s)) =
     (executors s)(drop 10 random \<mapsto> \<lparr>ex_promise = length (promises s), ex_fs = opt_fs opts\<rparr>)"
  by (simp add: request_def Let_def split: option.splits)

lemma request_fst: "fst (request req opts random trace s) = length (promises s)"
  by (simp add: request_def Let_def split: option.splits)

lemma step_length: "length (promises s) \<le> length (promises (step e s))"
proof (cases e)
  case (Call req opts random trace)
  then show ?thesis by (simp add: request_promises)
next
  case (Receive response estack)
  then show ?thesis using handleResponse_effect [of estack response s] by auto
next
  case (Timeout k estack)
  then show ?thesis using fire_effect [of k estack s] by auto
qed

lemma step_final:
  assumes "p < length (promises s)" and "promises s ! p \<noteq> Pending"
  shows "promises (step e s) ! p = promises s ! p"
proof (cases e)
  case (Call req opts random trace)
  with assms show ?thesis by (simp add: request_promises nth_append)
next
  case (Receive response estack)
  with assms show ?thesis
    using handleResponse_effect [of estack response s] by (auto simp: settle_settled)
next
  case (Timeout k estack)
  with assms show ?thesis
    using fire_effect [of k estack s] by (auto simp: settle_settled)
qed

lemma run_final:
  "p < length (promises s) \<Longrightarrow> promises s ! p \<noteq> Pending \<Longrightarrow>
     promises (run evs s) ! p = promises s ! p"
proof (induction evs arbitrary: s)
  case Nil
  then show ?case by simp
next
  case (Cons e evs)
  have "p < length (promises (step e s))"
    using Cons.prems(1) step_length [of s e] by simp
  moreover have "promises (step e s) ! p = promises s ! p"
    using Cons.prems by (rule step_final)
  ultimately show ?case using Cons by simp
qed













section \<open>The id of a call\<close>

text \<open>
  C5, as the code has it. \<open>request\<close> takes the id from the random text alone, what follows
  its first ten characters, and stores the record under it without looking into the
  table: the ids in the table afterwards are the old ones and this one, and a record that
  was pending under the same id is replaced. Ids of outstanding calls differ when the
  random texts do.
\<close>

theorem request_id_unchecked:
  "executors (snd (request req opts random trace s)) =
     (executors s)(drop 10 random \<mapsto> \<lparr>ex_promise = length (promises s), ex_fs = opt_fs opts\<rparr>)
   \<and> dom (executors (snd (request req opts random trace s))) =
       insert (drop 10 random) (dom (executors s))
   \<and> fst (request req opts random trace s) = length (promises s)"
  by (simp add: request_executors request_fst)

text \<open>
  C5 as the claim states it fails: two calls that draw the same random text get the same
  id, the second while the first is pending; the record of the first call is replaced by
  that of the second, and both promises are pending.
\<close>

theorem request_id_collision:
  "(let opts = \<lparr>opt_port = Some 0, opt_timeout = None, opt_fs = None\<rparr>;
        s1 = snd (request [(''method'', JStr ''stat'')] opts ''0.8a3f2b1c5d7e9'' ''Error: at a'' init);
        s2 = snd (request [(''method'', JStr ''sync'')] opts ''0.8a3f2b1c5d7e9'' ''Error: at b'' s1)
    in executors s1 ''5d7e9'' = Some \<lparr>ex_promise = 0, ex_fs = None\<rparr>
       \<and> executors s2 ''5d7e9'' = Some \<lparr>ex_promise = 1, ex_fs = None\<rparr>
       \<and> dom (executors s2) = {''5d7e9''}
       \<and> promises s2 = [Pending, Pending])"
  by (simp add: Let_def request_def init_def)

section \<open>The timeout\<close>

lemma executors_delete_Some:
  "executors_delete m v j = Some ex \<Longrightarrow> m j = Some ex"
  by (cases v) (auto split: if_splits)

lemma wf_init: "wf_engine init"
  by (simp add: wf_engine_def init_def)

lemma wf_engine_executors:
  "wf_engine s \<Longrightarrow> executors s i = Some ex \<Longrightarrow> ex_promise ex < length (promises s)"
  unfolding wf_engine_def by blast

lemma wf_engine_timers:
  "wf_engine s \<Longrightarrow> k < length (timers s) \<Longrightarrow> timers s ! k = Some tm \<Longrightarrow>
     tm_promise tm < length (promises s)"
  unfolding wf_engine_def by blast

lemma wf_engineI:
  assumes "\<And>i ex. executors s i = Some ex \<Longrightarrow> ex_promise ex < length (promises s)"
    and "\<And>k tm. k < length (timers s) \<Longrightarrow> timers s ! k = Some tm \<Longrightarrow>
           tm_promise tm < length (promises s)"
  shows "wf_engine s"
  unfolding wf_engine_def using assms by blast

lemma wf_step: assumes "wf_engine s" shows "wf_engine (step e s)"
proof (cases e)
  case (Call req opts random trace)
  let ?s' = "snd (request req opts random trace s)"
  have "wf_engine ?s'"
  proof (rule wf_engineI)
    fix i ex assume "executors ?s' i = Some ex"
    then have "ex_promise ex = length (promises s) \<or> executors s i = Some ex"
      by (auto simp: request_executors split: if_splits)
    then show "ex_promise ex < length (promises ?s')"
      using wf_engine_executors [OF assms] by (auto simp: request_promises less_Suc_eq)
  next
    fix k tm assume "k < length (timers ?s')" and "timers ?s' ! k = Some tm"
    then have "tm_promise tm = length (promises s) \<or> (k < length (timers s) \<and> timers s ! k = Some tm)"
      by (auto simp: request_timers nth_append less_Suc_eq split: option.splits if_splits)
    then show "tm_promise tm < length (promises ?s')"
      using wf_engine_timers [OF assms] by (auto simp: request_promises less_Suc_eq)
  qed
  with Call show ?thesis by simp
next
  case (Receive response estack)
  let ?s' = "snd (handleResponse estack response s)"
  have "wf_engine ?s'"
  proof (rule wf_engineI)
    fix i ex assume "executors ?s' i = Some ex"
    then have "executors s i = Some ex"
      using handleResponse_effect [of estack response s]
      by (auto dest: executors_delete_Some)
    then show "ex_promise ex < length (promises ?s')"
      using wf_engine_executors [OF assms] handleResponse_effect [of estack response s] by auto
  next
    fix k tm assume "k < length (timers ?s')" and "timers ?s' ! k = Some tm"
    then show "tm_promise tm < length (promises ?s')"
      using wf_engine_timers [OF assms] handleResponse_effect [of estack response s] by auto
  qed
  with Receive show ?thesis by simp
next
  case (Timeout j estack)
  let ?s' = "fire j estack s"
  have len: "length (promises ?s') = length (promises s)"
    using fire_effect [of j estack s] by auto
  have "wf_engine ?s'"
  proof (rule wf_engineI)
    fix i ex assume "executors ?s' i = Some ex"
    then show "ex_promise ex < length (promises ?s')"
      using wf_engine_executors [OF assms, of i ex] by (simp add: len)
  next
    fix k tm assume "k < length (timers ?s')" and "timers ?s' ! k = Some tm"
    then have "k < length (timers s) \<and> timers s ! k = Some tm"
      using fire_effect [of j estack s] by (auto simp: nth_list_update split: if_splits)
    then show "tm_promise tm < length (promises ?s')"
      using wf_engine_timers [OF assms, of k tm] by (simp add: len)
  qed
  with Timeout show ?thesis by simp
qed

lemma wf_run: "wf_engine s \<Longrightarrow> wf_engine (run evs s)"
  by (induction evs arbitrary: s) (simp_all add: wf_step)

lemma tracks_request:
  assumes "wf_engine s" and "opt_port opts = Some port"
  shows "tracks (length (promises s)) (drop 10 random) (length (timers s))
           \<lparr>tm_delay = (case opt_timeout opts of None \<Rightarrow> 1000 | Some t \<Rightarrow> t),
            tm_promise = length (promises s), tm_id = drop 10 random,
            tm_stack = drop (length ''Error:'') trace\<rparr>
           (snd (request req opts random trace s))"
proof -
  have e: "\<And>j ex. executors s j = Some ex \<Longrightarrow> ex_promise ex \<noteq> length (promises s)"
    using wf_engine_executors [OF assms(1)] by fastforce
  have t: "\<And>j tm. j < length (timers s) \<Longrightarrow> timers s ! j = Some tm \<Longrightarrow>
             tm_promise tm \<noteq> length (promises s)"
    using wf_engine_timers [OF assms(1)] by fastforce
  show ?thesis
    unfolding tracks_def request_promises request_timers request_executors
    using assms(2) e t
    by (auto simp: nth_append less_Suc_eq split: if_splits)
qed

lemma tracks_step:
  assumes "tracks p i k tm s" and "\<not> answers i e" and "\<not> fires k e"
  shows "tracks p i k tm (step e s)"
proof -
  from assms(1) have p: "p < length (promises s)" "promises s ! p = Pending"
    and k: "k < length (timers s)" "timers s ! k = Some tm" "tm_promise tm = p"
    and ex: "\<And>j ex. executors s j = Some ex \<Longrightarrow> ex_promise ex = p \<Longrightarrow> j = i"
    and tm: "\<And>j tm'. j < length (timers s) \<Longrightarrow> timers s ! j = Some tm' \<Longrightarrow>
                 tm_promise tm' = p \<Longrightarrow> j = k"
    unfolding tracks_def by blast+
  show ?thesis
  proof (cases e)
    case (Call req opts random trace)
    let ?s' = "snd (request req opts random trace s)"
    have "p < length (promises ?s')" "promises ?s' ! p = Pending"
      using p by (simp_all add: request_promises nth_append)
    moreover have "k < length (timers ?s')" "timers ?s' ! k = Some tm"
      using k by (simp_all add: request_timers nth_append)
    moreover have "\<And>j ex. executors ?s' j = Some ex \<Longrightarrow> ex_promise ex = p \<Longrightarrow> j = i"
      using ex p(1) by (auto simp: request_executors split: if_splits)
    moreover have "\<And>j tm'. j < length (timers ?s') \<Longrightarrow> timers ?s' ! j = Some tm' \<Longrightarrow>
                 tm_promise tm' = p \<Longrightarrow> j = k"
    proof -
      fix j tm' assume a: "j < length (timers ?s')" "timers ?s' ! j = Some tm'" "tm_promise tm' = p"
      then have "j < length (timers s) \<and> timers s ! j = Some tm'"
        using p(1) by (auto simp: request_timers nth_append less_Suc_eq split: option.splits if_splits)
      with a(3) show "j = k" using tm by blast
    qed
    ultimately have "tracks p i k tm ?s'"
      unfolding tracks_def using k(3) by blast
    with Call show ?thesis by simp
  next
    case (Receive response estack)
    from handleResponse_effect [of estack response s]
    show ?thesis
    proof
      assume "snd (handleResponse estack response s) = s"
      with assms(1) Receive show ?thesis by simp
    next
      assume "\<exists>ex outcome. isMessage response = Inr True
           \<and> executors_get (executors s) (field response ''id'') = Some ex
           \<and> snd (handleResponse estack response s) =
               s\<lparr>promises := settle (ex_promise ex) outcome (promises s),
                 executors := executors_delete (executors s) (field response ''id'')\<rparr>"
      then obtain ex' outcome where m: "isMessage response = Inr True"
        and g: "executors_get (executors s) (field response ''id'') = Some ex'"
        and eq: "snd (handleResponse estack response s) =
               s\<lparr>promises := settle (ex_promise ex') outcome (promises s),
                 executors := executors_delete (executors s) (field response ''id'')\<rparr>"
        by blast
      from g obtain j where j: "field response ''id'' = JStr j" "executors s j = Some ex'"
        by (cases "field response ''id''") auto
      with m assms(2) Receive have "j \<noteq> i" by auto
      with j ex have ne: "ex_promise ex' \<noteq> p" by blast
      let ?s' = "snd (handleResponse estack response s)"
      have "p < length (promises ?s')" "promises ?s' ! p = Pending"
        using p ne by (simp_all add: eq settle_other)
      moreover have "k < length (timers ?s')" "timers ?s' ! k = Some tm"
        using k by (simp_all add: eq)
      moreover have "\<And>j ex. executors ?s' j = Some ex \<Longrightarrow> ex_promise ex = p \<Longrightarrow> j = i"
        using ex by (auto simp: eq dest: executors_delete_Some)
      moreover have "\<And>j tm'. j < length (timers ?s') \<Longrightarrow> timers ?s' ! j = Some tm' \<Longrightarrow>
                 tm_promise tm' = p \<Longrightarrow> j = k"
        using tm by (simp add: eq)
      ultimately have "tracks p i k tm ?s'"
        unfolding tracks_def using k(3) by blast
      with Receive show ?thesis by simp
    qed
  next
    case (Timeout j estack)
    with assms(3) have jk: "j \<noteq> k" by simp
    from fire_effect [of j estack s]
    show ?thesis
    proof
      assume "fire j estack s = s"
      with assms(1) Timeout show ?thesis by simp
    next
      assume "\<exists>tm. j < length (timers s) \<and> timers s ! j = Some tm
           \<and> fire j estack s =
               s\<lparr>timers := (timers s)[j := None],
                 promises := settle (tm_promise tm)
                    (Rejected (Err (ApiError EIO (''RPC Failed (#'' @ tm_id tm @ '')'') (estack @ tm_stack tm))))
                    (promises s)\<rparr>"
      then obtain tm' where t: "j < length (timers s)" "timers s ! j = Some tm'"
        and eq: "fire j estack s =
               s\<lparr>timers := (timers s)[j := None],
                 promises := settle (tm_promise tm')
                    (Rejected (Err (ApiError EIO (''RPC Failed (#'' @ tm_id tm' @ '')'') (estack @ tm_stack tm'))))
                    (promises s)\<rparr>"
        by blast
      from t jk tm have ne: "tm_promise tm' \<noteq> p" by blast
      let ?s' = "fire j estack s"
      have "p < length (promises ?s')" "promises ?s' ! p = Pending"
        using p ne by (simp_all add: eq settle_other)
      moreover have "k < length (timers ?s')" "timers ?s' ! k = Some tm"
        using k jk by (simp_all add: eq)
      moreover have "\<And>j ex. executors ?s' j = Some ex \<Longrightarrow> ex_promise ex = p \<Longrightarrow> j = i"
        using ex by simp
      moreover have "\<And>j' tm''. j' < length (timers ?s') \<Longrightarrow> timers ?s' ! j' = Some tm'' \<Longrightarrow>
                 tm_promise tm'' = p \<Longrightarrow> j' = k"
      proof -
        fix j' tm'' assume a: "j' < length (timers ?s')" "timers ?s' ! j' = Some tm''" "tm_promise tm'' = p"
        from a(1,2) have "j' < length (timers s) \<and> timers s ! j' = Some tm''"
          by (cases "j' = j") (simp_all add: eq)
        with a(3) show "j' = k" using tm by blast
      qed
      ultimately have "tracks p i k tm ?s'"
        unfolding tracks_def using k(3) by blast
      with Timeout show ?thesis by simp
    qed
  qed
qed

lemma tracks_run:
  "tracks p i k tm s \<Longrightarrow> \<forall>e\<in>set evs. \<not> answers i e \<and> \<not> fires k e \<Longrightarrow>
     tracks p i k tm (run evs s)"
  by (induction evs arbitrary: s) (simp_all add: tracks_step)

lemma tracks_fire:
  assumes "tracks p i k tm s"
  shows "promises (fire k estack s) ! p =
           Rejected (Err (ApiError EIO (''RPC Failed (#'' @ tm_id tm @ '')'') (estack @ tm_stack tm)))"
  using assms by (simp add: tracks_def fire_def timeout_callback_def settle_def)

text \<open>
  C2: a call made on a port, in an engine reached from the initial one, starts a timer
  with the configured delay, 1000 by default. As long as no tagged response with the id
  of the call is handled and the timer has not fired, the promise is pending, whatever
  else happens; when the timer then fires, the promise is rejected with an \<open>ApiError\<close> of
  code \<open>EIO\<close> whose message holds the id and whose stack ends with the stack captured by
  \<open>request\<close>.
\<close>

theorem request_times_out:
  assumes "request req opts random trace (run before init) = (p, s)"
    and "opt_port opts = Some port"
    and "\<forall>e\<in>set evs. \<not> answers (drop 10 random) e \<and> \<not> fires (length (timers (run before init))) e"
  shows "timers s ! length (timers (run before init)) =
           Some \<lparr>tm_delay = (case opt_timeout opts of None \<Rightarrow> 1000 | Some t \<Rightarrow> t),
                 tm_promise = p, tm_id = drop 10 random,
                 tm_stack = drop (length ''Error:'') trace\<rparr>
         \<and> promises (run evs s) ! p = Pending
         \<and> promises (fire (length (timers (run before init))) estack (run evs s)) ! p =
             Rejected (Err (ApiError EIO (''RPC Failed (#'' @ drop 10 random @ '')'')
                              (estack @ drop (length ''Error:'') trace)))"
proof -
  let ?s0 = "run before init"
  let ?tm = "\<lparr>tm_delay = (case opt_timeout opts of None \<Rightarrow> 1000 | Some t \<Rightarrow> t),
            tm_promise = length (promises ?s0), tm_id = drop 10 random,
            tm_stack = drop (length ''Error:'') trace\<rparr>"
  have p: "p = length (promises ?s0)" and s: "s = snd (request req opts random trace ?s0)"
    using assms(1) request_fst [of req opts random trace ?s0] by auto
  have "wf_engine ?s0" by (simp add: wf_init wf_run)
  then have t0: "tracks p (drop 10 random) (length (timers ?s0)) ?tm s"
    unfolding p s using assms(2) by (rule tracks_request)
  then have t1: "tracks p (drop 10 random) (length (timers ?s0)) ?tm (run evs s)"
    using assms(3) by (rule tracks_run)
  from t0 have "timers s ! length (timers ?s0) = Some ?tm" by (simp add: tracks_def)
  moreover from t1 have "promises (run evs s) ! p = Pending" by (simp add: tracks_def)
  moreover from t1 have "promises (fire (length (timers ?s0)) estack (run evs s)) ! p =
      Rejected (Err (ApiError EIO (''RPC Failed (#'' @ tm_id ?tm @ '')'') (estack @ tm_stack ?tm)))"
    by (rule tracks_fire)
  ultimately show ?thesis by (simp add: p)
qed

theorem request_times_out_witness:
  "timers (snd (request [(''scope'', JStr ''fs''), (''method'', JStr ''stat'')]
           \<lparr>opt_port = Some 0, opt_timeout = None, opt_fs = None\<rparr>
           ''0.8a3f2b1c5d7e9'' ''Error: at stat'' init)) ! 0 =
     Some \<lparr>tm_delay = 1000, tm_promise = 0, tm_id = ''5d7e9'', tm_stack = '' at stat''\<rparr>
   \<and> promises (run [Receive (JObj [(''_zenfs'', JBool True), (''id'', JStr ''0000''),
                                    (''error'', JBool False), (''value'', JNum 1)]) ''EIO'',
                    Receive (JStr ''5d7e9'') ''EIO'']
        (snd (request [(''scope'', JStr ''fs''), (''method'', JStr ''stat'')]
           \<lparr>opt_port = Some 0, opt_timeout = None, opt_fs = None\<rparr>
           ''0.8a3f2b1c5d7e9'' ''Error: at stat'' init))) ! 0 = Pending
   \<and> promises (fire 0 ''EIO: RPC Failed''
        (run [Receive (JObj [(''_zenfs'', JBool True), (''id'', JStr ''0000''),
                             (''error'', JBool False), (''value'', JNum 1)]) ''EIO'',
              Receive (JStr ''5d7e9'') ''EIO'']
          (snd (request [(''scope'', JStr ''fs''), (''method'', JStr ''stat'')]
             \<lparr>opt_port = Some 0, opt_timeout = None, opt_fs = None\<rparr>
             ''0.8a3f2b1c5d7e9'' ''Error: at stat'' init)))) ! 0 =
     Rejected (Err (ApiError EIO ''RPC Failed (#5d7e9)'' ''EIO: RPC Failed at stat''))"
  using request_times_out
    [of "[(''scope'', JStr ''fs''), (''method'', JStr ''stat'')]"
        "\<lparr>opt_port = Some 0, opt_timeout = None, opt_fs = None\<rparr>"
        "''0.8a3f2b1c5d7e9''" "''Error: at stat''" "[]" 0
        "snd (request [(''scope'', JStr ''fs''), (''method'', JStr ''stat'')]
           \<lparr>opt_port = Some 0, opt_timeout = None, opt_fs = None\<rparr>
           ''0.8a3f2b1c5d7e9'' ''Error: at stat'' init)"
        0
        "[Receive (JObj [(''_zenfs'', JBool True), (''id'', JStr ''0000''),
                         (''error'', JBool False), (''value'', JNum 1)]) ''EIO'',
          Receive (JStr ''5d7e9'') ''EIO'']"
        "''EIO: RPC Failed''"]
  by (simp add: request_def Let_def init_def isMessage_def and_then_def js_get_def)

section \<open>Responses in reverse order\<close>

lemma isFileData_not_null: "v \<noteq> JNull \<Longrightarrow> \<exists>b. isFileData v = Inr b"
  by (cases v) (auto simp: isFileData_def and_then_def)

lemma handleResponse_success:
  assumes "isMessage response = Inr True"
    and "field response ''id'' = JStr i"
    and "executors s i = Some ex"
    and "\<not> truthy (field response ''error'')"
    and "field response ''value'' \<noteq> JNull"
  shows "snd (handleResponse estack response s) =
           s\<lparr>promises := settle (ex_promise ex)
                 (Fulfilled (resolution (ex_fs ex) (field response ''value''))) (promises s),
             executors := (executors s)(i := None)\<rparr>"
proof -
  from assms(5) obtain b where b: "isFileData (field response ''value'') = Inr b"
    using isFileData_not_null by blast
  have g: "executors_get (executors s) (field response ''id'') = Some ex"
    using assms(2,3) by simp
  show ?thesis
  proof (cases b)
    case True
    with b show ?thesis
      using handleResponse_file [OF assms(1) g assms(4), of estack]
      by (simp add: resolution_def assms(2))
  next
    case False
    with b show ?thesis
      using handleResponse_value [OF assms(1) g assms(4), of estack]
      by (simp add: resolution_def assms(2))
  qed
qed

lemma calls_length:
  "length (promises (run (map call_of xs) s)) = length (promises s) + length xs"
  by (induction xs arbitrary: s) (simp_all add: call_of_def request_promises)

lemma calls_keep_promises:
  "q < length (promises s) \<Longrightarrow> promises (run (map call_of xs) s) ! q = promises s ! q"
proof (induction xs arbitrary: s)
  case Nil
  then show ?case by simp
next
  case (Cons x xs)
  let ?s1 = "step (call_of x) s"
  have "q < length (promises ?s1)" and "promises ?s1 ! q = promises s ! q"
    using Cons.prems by (simp_all add: call_of_def request_promises nth_append)
  then show ?case using Cons.IH [of ?s1] by simp
qed

lemma calls_keep_executors:
  "i \<notin> set (map (\<lambda>x. drop 10 (x_random x)) xs) \<Longrightarrow>
     executors (run (map call_of xs) s) i = executors s i"
  by (induction xs arbitrary: s) (simp_all add: call_of_def request_executors)

lemma calls_pending:
  assumes "distinct (map (\<lambda>x. drop 10 (x_random x)) xs)"
    and "\<forall>x\<in>set xs. opt_port (x_options x) \<noteq> None"
    and "j < length xs"
  shows "executors (run (map call_of xs) s) (drop 10 (x_random (xs ! j))) =
           Some \<lparr>ex_promise = length (promises s) + j, ex_fs = opt_fs (x_options (xs ! j))\<rparr>
         \<and> promises (run (map call_of xs) s) ! (length (promises s) + j) = Pending"
  using assms
proof (induction xs arbitrary: s j)
  case Nil
  then show ?case by simp
next
  case (Cons x xs)
  let ?s1 = "step (call_of x) s"
  have len: "length (promises ?s1) = Suc (length (promises s))"
    by (simp add: call_of_def request_promises)
  show ?case
  proof (cases j)
    case 0
    have "drop 10 (x_random x) \<notin> set (map (\<lambda>x. drop 10 (x_random x)) xs)"
      using Cons.prems(1) by simp
    then have "executors (run (map call_of xs) ?s1) (drop 10 (x_random x)) =
                 executors ?s1 (drop 10 (x_random x))"
      by (rule calls_keep_executors)
    moreover have "executors ?s1 (drop 10 (x_random x)) =
        Some \<lparr>ex_promise = length (promises s), ex_fs = opt_fs (x_options x)\<rparr>"
      by (simp add: call_of_def request_executors)
    moreover have "promises (run (map call_of xs) ?s1) ! length (promises s) =
                     promises ?s1 ! length (promises s)"
      by (rule calls_keep_promises) (simp add: len)
    moreover have "promises ?s1 ! length (promises s) = Pending"
      using Cons.prems(2) by (auto simp: call_of_def request_promises)
    ultimately show ?thesis
      using 0 by simp
  next
    case (Suc j')
    with Cons.prems have "distinct (map (\<lambda>x. drop 10 (x_random x)) xs)"
      and "\<forall>x\<in>set xs. opt_port (x_options x) \<noteq> None" and "j' < length xs"
      by simp_all
    from Cons.IH [OF this, of ?s1] show ?thesis
      using Suc by (simp add: len)
  qed
qed

lemma replies_resolve:
  assumes "distinct (map (\<lambda>(x, p). drop 10 (x_random x)) ys)"
    and "distinct (map snd ys)"
    and "\<forall>(x, p)\<in>set ys. answered x
           \<and> executors s (drop 10 (x_random x)) = Some \<lparr>ex_promise = p, ex_fs = opt_fs (x_options x)\<rparr>
           \<and> p < length (promises s) \<and> promises s ! p = Pending"
    and "(x, p) \<in> set ys"
  shows "promises (run (map (\<lambda>(x, p). reply_of estack x) ys) s) ! p =
           Fulfilled (resolution (opt_fs (x_options x)) (field (x_response x) ''value''))"
  using assms
proof (induction ys arbitrary: s)
  case Nil
  then show ?case by simp
next
  case (Cons y ys)
  obtain x0 p0 where y: "y = (x0, p0)" by (cases y)
  let ?i0 = "drop 10 (x_random x0)"
  let ?s1 = "step (reply_of estack x0) s"
  from Cons.prems(3) y have a0: "answered x0"
    and e0: "executors s ?i0 = Some \<lparr>ex_promise = p0, ex_fs = opt_fs (x_options x0)\<rparr>"
    and p0: "p0 < length (promises s)" "promises s ! p0 = Pending"
    by auto
  have s1: "?s1 = s\<lparr>promises := settle p0
                 (Fulfilled (resolution (opt_fs (x_options x0)) (field (x_response x0) ''value'')))
                 (promises s),
             executors := (executors s)(?i0 := None)\<rparr>"
    using a0 handleResponse_success [of "x_response x0" ?i0 s _ estack, OF _ _ e0]
    by (simp add: answered_def reply_of_def)
  show ?case
  proof (cases "(x, p) = (x0, p0)")
    case True
    have "promises ?s1 ! p0 =
            Fulfilled (resolution (opt_fs (x_options x0)) (field (x_response x0) ''value''))"
      using p0 by (simp add: s1 settle_pending)
    moreover have "p0 < length (promises ?s1)" using p0 by (simp add: s1)
    ultimately have "promises (run (map (\<lambda>(x, p). reply_of estack x) ys) ?s1) ! p0 =
            Fulfilled (resolution (opt_fs (x_options x0)) (field (x_response x0) ''value''))"
      using run_final [of p0 ?s1] by simp
    with True y show ?thesis by simp
  next
    case False
    with Cons.prems(4) y have mem: "(x, p) \<in> set ys" by auto
    have d1: "distinct (map (\<lambda>(x, p). drop 10 (x_random x)) ys)"
      and d2: "distinct (map snd ys)"
      using Cons.prems(1,2) by simp_all
    have inv: "\<forall>(x, p)\<in>set ys. answered x
           \<and> executors ?s1 (drop 10 (x_random x)) = Some \<lparr>ex_promise = p, ex_fs = opt_fs (x_options x)\<rparr>
           \<and> p < length (promises ?s1) \<and> promises ?s1 ! p = Pending"
    proof (clarify, intro conjI)
      fix x' p' assume m: "(x', p') \<in> set ys"
      with Cons.prems(3) have a: "answered x'"
        and e: "executors s (drop 10 (x_random x')) = Some \<lparr>ex_promise = p', ex_fs = opt_fs (x_options x')\<rparr>"
        and q: "p' < length (promises s)" "promises s ! p' = Pending"
        by auto
      from m Cons.prems(1) y have ni: "drop 10 (x_random x') \<noteq> ?i0"
        by (force simp: image_iff)
      from m Cons.prems(2) y have np: "p' \<noteq> p0"
        by (force simp: image_iff)
      show "answered x'" by (rule a)
      show "executors ?s1 (drop 10 (x_random x')) = Some \<lparr>ex_promise = p', ex_fs = opt_fs (x_options x')\<rparr>"
        using e ni by (simp add: s1)
      show "p' < length (promises ?s1)" using q by (simp add: s1)
      show "promises ?s1 ! p' = Pending" using q np by (simp add: s1 settle_other)
    qed
    from Cons.IH [OF d1 d2 inv mem] show ?thesis by (simp add: y)
  qed
qed

lemma map_rev_zip_fst:
  assumes "length xs = length ns"
  shows "map (\<lambda>(x, p). f x) (rev (zip xs ns)) = map f (rev xs)"
proof -
  have "map (\<lambda>(x, p). f x) (rev (zip xs ns)) = map f (map fst (rev (zip xs ns)))"
    by (simp add: case_prod_unfold comp_def)
  also have "map fst (rev (zip xs ns)) = rev (map fst (zip xs ns))"
    by (simp add: rev_map)
  also have "map fst (zip xs ns) = xs"
    using assms by simp
  finally show ?thesis .
qed

text \<open>
  Calls with pairwise distinct ids are made one after the other on a port, and their
  success responses, none of them carrying \<open>null\<close>, are handled in the reverse order. The
  promise of the \<open>j\<close>-th call is then resolved with what the response bearing its own id
  carries: the value, or the \<open>PortFile\<close> made from it for the stub of that call.
\<close>

lemma replies_in_reverse_order:
  assumes "distinct (map (\<lambda>x. drop 10 (x_random x)) xs)"
    and "\<forall>x\<in>set xs. answered x"
    and "j < length xs"
  shows "promises (run (map (reply_of estack) (rev xs)) (run (map call_of xs) s))
           ! (length (promises s) + j) =
         Fulfilled (resolution (opt_fs (x_options (xs ! j))) (field (x_response (xs ! j)) ''value''))"
proof -
  let ?n = "length (promises s)"
  let ?s1 = "run (map call_of xs) s"
  let ?ys = "rev (zip xs [?n ..< ?n + length xs])"
  have ports: "\<forall>x\<in>set xs. opt_port (x_options x) \<noteq> None"
    using assms(2) by (simp add: answered_def)
  have m1: "map (\<lambda>(x, p). drop 10 (x_random x)) ?ys = rev (map (\<lambda>x. drop 10 (x_random x)) xs)"
    by (simp add: map_rev_zip_fst rev_map)
  have m2: "map snd ?ys = rev [?n ..< ?n + length xs]"
    by (simp add: rev_map [symmetric])
  have m3: "map (\<lambda>(x, p). reply_of estack x) ?ys = map (reply_of estack) (rev xs)"
    by (simp add: map_rev_zip_fst)
  have d1: "distinct (map (\<lambda>(x, p). drop 10 (x_random x)) ?ys)"
    unfolding m1 using assms(1) by simp
  have d2: "distinct (map snd ?ys)"
    unfolding m2 by simp
  have inv: "\<forall>(x, p)\<in>set ?ys. answered x
           \<and> executors ?s1 (drop 10 (x_random x)) = Some \<lparr>ex_promise = p, ex_fs = opt_fs (x_options x)\<rparr>
           \<and> p < length (promises ?s1) \<and> promises ?s1 ! p = Pending"
  proof (clarify, intro conjI)
    fix x p assume "(x, p) \<in> set ?ys"
    then obtain k where k: "k < length xs" "x = xs ! k" "p = ?n + k"
      by (auto simp: set_zip)
    show "answered x" using assms(2) k by simp
    show "executors ?s1 (drop 10 (x_random x)) = Some \<lparr>ex_promise = p, ex_fs = opt_fs (x_options x)\<rparr>"
      using calls_pending [OF assms(1) ports k(1), of s] k by simp
    show "p < length (promises ?s1)" using k by (simp add: calls_length)
    show "promises ?s1 ! p = Pending"
      using calls_pending [OF assms(1) ports k(1), of s] k by simp
  qed
  have mem: "(xs ! j, ?n + j) \<in> set ?ys"
    using assms(3) by (auto simp: set_zip intro!: exI [of _ j])
  from replies_resolve [OF d1 d2 inv mem, of estack] show ?thesis
    unfolding m3 .
qed

text \<open>
  C3 (responses handled in the reverse order of the calls resolve each call with the
  value of the response bearing its id): the code does not do that when a response
  carries \<open>null\<close>. Two calls get the ids \<open>5d7e9\<close> and \<open>00aa1\<close>; the response for the second
  is handled first and resolves it with \<open>true\<close>; the response for the first carries \<open>null\<close>,
  \<open>isFileData(null)\<close> throws, and the first call stays pending with its record in the table.
\<close>

theorem reverse_replies_null_stays_pending:
  "(let xs = [\<lparr>x_request = [(''scope'', JStr ''fs''), (''method'', JStr ''readlink'')],
                 x_options = \<lparr>opt_port = Some 0, opt_timeout = None, opt_fs = Some 7\<rparr>,
                 x_random = ''0.8a3f2b1c5d7e9'', x_trace = ''Error: at readlink'',
                 x_response = JObj [(''_zenfs'', JBool True), (''id'', JStr ''5d7e9''),
                                    (''stack'', JStr []), (''error'', JBool False),
                                    (''value'', JNull)]\<rparr>,
                \<lparr>x_request = [(''scope'', JStr ''fs''), (''method'', JStr ''exists'')],
                 x_options = \<lparr>opt_port = Some 0, opt_timeout = None, opt_fs = Some 7\<rparr>,
                 x_random = ''0.8a3f2b1c00aa1'', x_trace = ''Error: at exists'',
                 x_response = JObj [(''_zenfs'', JBool True), (''id'', JStr ''00aa1''),
                                    (''stack'', JStr []), (''error'', JBool False),
                                    (''value'', JBool True)]\<rparr>];
        s = run (map (reply_of ''EIO'') (rev xs)) (run (map call_of xs) init)
    in promises s = [Pending, Fulfilled (Val (JBool True))]
       \<and> executors s ''5d7e9'' = Some \<lparr>ex_promise = 0, ex_fs = Some 7\<rparr>
       \<and> executors s ''00aa1'' = None)"
  by (simp add: Let_def call_of_def reply_of_def request_def init_def settle_def
        handleResponse_def isMessage_def isFileData_def and_then_def js_get_def)

section \<open>attach and detach\<close>

lemma listener_body_object:
  "listener_body handler (JObj fs) =
     Invoked handler (if ''data'' \<in> set (map fst fs) then field (JObj fs) ''data'' else JObj fs)"
  by (simp add: listener_body_def)

lemma listener_body_event: "listener_body handler (JObj [(''data'', v)]) = Invoked handler v"
  by (simp add: listener_body_def)

lemma attach_on:
  "''on'' \<in> set (members port) \<Longrightarrow>
     attach port handler created =
       (Inr (port\<lparr>emitter := emitter port @ [\<lparr>fn_id = created, fn_handler = handler\<rparr>]\<rparr>),
        Suc created)"
  by (simp add: attach_def call_method_def)

lemma attach_addEventListener:
  "''on'' \<notin> set (members port) \<Longrightarrow> ''addEventListener'' \<in> set (members port) \<Longrightarrow>
   created \<notin> set (map fn_id (target port)) \<Longrightarrow>
     attach port handler created =
       (Inr (port\<lparr>target := target port @ [\<lparr>fn_id = created, fn_handler = handler\<rparr>]\<rparr>),
        Suc created)"
  by (simp add: attach_def call_method_def)

lemma attach_no_method:
  "''on'' \<notin> set (members port) \<Longrightarrow> ''addEventListener'' \<notin> set (members port) \<Longrightarrow>
     attach port handler created = (Inl TypeError, Suc created)"
  by (simp add: attach_def call_method_def)

text \<open>
  C8, as the code has it. \<open>attach\<close> knows two shapes. On a port with a member \<open>on\<close> it
  subscribes with \<open>on\<close>, and the handler is then called, for an object that arrives, with
  its \<open>data\<close> member when it has one and with the object itself otherwise. On a port
  without \<open>on\<close> but with \<open>addEventListener\<close> it subscribes with that, and the handler is
  called with the value the event carries as \<open>data\<close>. On any other port the call throws a
  \<open>TypeError\<close>. The function made by the call is new, so it is not yet a listener.
\<close>

theorem attach_two_shapes:
  assumes "created \<notin> set (map fn_id (target port))"
  shows "if ''on'' \<in> set (members port) then
           attach port handler created =
             (Inr (port\<lparr>emitter := emitter port @ [\<lparr>fn_id = created, fn_handler = handler\<rparr>]\<rparr>),
              Suc created)
           \<and> Invoked handler
               (if ''data'' \<in> set (map fst fs) then field (JObj fs) ''data'' else JObj fs)
               \<in> set (deliver
                      (port\<lparr>emitter := emitter port @ [\<lparr>fn_id = created, fn_handler = handler\<rparr>]\<rparr>)
                      (JObj fs))
         else if ''addEventListener'' \<in> set (members port) then
           attach port handler created =
             (Inr (port\<lparr>target := target port @ [\<lparr>fn_id = created, fn_handler = handler\<rparr>]\<rparr>),
              Suc created)
           \<and> Invoked handler v
               \<in> set (deliver
                      (port\<lparr>target := target port @ [\<lparr>fn_id = created, fn_handler = handler\<rparr>]\<rparr>)
                      v)
         else attach port handler created = (Inl TypeError, Suc created)"
  using assms
  by (simp add: attach_on attach_addEventListener attach_no_method deliver_def
        listener_body_object listener_body_event)

theorem attach_two_shapes_witness:
  "attach \<lparr>members = [''postMessage'', ''addEventListener'', ''removeEventListener''],
            emitter = [], target = [], onmessage = None\<rparr> 7 0 =
     (Inr \<lparr>members = [''postMessage'', ''addEventListener'', ''removeEventListener''],
            emitter = [], target = [\<lparr>fn_id = 0, fn_handler = 7\<rparr>], onmessage = None\<rparr>, 1)
   \<and> Invoked 7 (JStr ''ping'')
       \<in> set (deliver \<lparr>members = [''postMessage'', ''addEventListener'', ''removeEventListener''],
                 emitter = [], target = [\<lparr>fn_id = 0, fn_handler = 7\<rparr>], onmessage = None\<rparr>
                (JStr ''ping''))"
  using attach_two_shapes
    [of 0 "\<lparr>members = [''postMessage'', ''addEventListener'', ''removeEventListener''],
              emitter = [], target = [], onmessage = None\<rparr>" 7 "[]" "JStr ''ping''"]
  by simp

text \<open>
  C8 as the claim states it fails: a port whose only way to subscribe is the \<open>onmessage\<close>
  slot has neither \<open>on\<close> nor \<open>addEventListener\<close>, and \<open>attach\<close> throws a \<open>TypeError\<close> on it.
\<close>

theorem attach_onmessage_only:
  "attach \<lparr>members = [''postMessage'', ''onmessage''], emitter = [], target = [],
            onmessage = None\<rparr> 7 0
     = (Inl TypeError, 1)"
  by (simp add: attach_def call_method_def)

lemma remove_first_absent: "i \<notin> set (map fn_id ls) \<Longrightarrow> remove_first i ls = ls"
  by (induction ls) auto

text \<open>
  The function that \<open>detach\<close> hands to \<open>off\<close> or \<open>removeEventListener\<close> is made by that very
  call, so it is no listener of the port, and the port stays as it was.
\<close>

lemma detach_new_function:
  assumes "created \<notin> set (map fn_id (emitter port))"
    and "created \<notin> set (map fn_id (target port))"
    and "fst (detach port handler created) = Inr port'"
  shows "port' = port"
proof -
  have e: "rev (remove_first created (rev (emitter port))) = emitter port"
    using assms(1) by (simp add: remove_first_absent)
  have t: "filter (\<lambda>l. fn_id l \<noteq> created) (target port) = target port"
    using assms(2) by (induction "target port") (auto simp: filter_id_conv)
  show ?thesis
    using assms(3) e t by (auto simp: detach_def call_method_def split: if_splits)
qed

text \<open>
  C9 (\<open>attach\<close> followed by \<open>detach\<close> with the same port and handler leaves the handler
  unsubscribed): the code does not do that. On a port with \<open>on\<close> and \<open>off\<close>, \<open>attach\<close> adds
  function number 0 as listener; \<open>detach\<close> then asks \<open>off\<close> to remove function number 1,
  the one it has just made, which was never added. The port after \<open>detach\<close> is the port
  before it, and a message that arrives still reaches the handler.
\<close>

theorem detach_does_not_unsubscribe:
  "(let port0 = \<lparr>members = [''postMessage'', ''on'', ''off''], emitter = [], target = [],
                  onmessage = None\<rparr>;
        message = JObj [(''_zenfs'', JBool True), (''id'', JStr ''5d7e9'')]
    in case attach port0 7 0 of
         (Inl e, n) \<Rightarrow> False
       | (Inr port1, n) \<Rightarrow>
           deliver port1 message = [Invoked 7 message]
           \<and> (case detach port1 7 n of
                 (Inl e, m) \<Rightarrow> False
               | (Inr port2, m) \<Rightarrow>
                   port2 = port1 \<and> deliver port2 message = [Invoked 7 message]))"
  by (simp add: Let_def attach_def detach_def call_method_def deliver_def listener_body_def)

end
